theory Spec2Isabelle
  imports Complex_Main
begin

section \<open>Data models (pos\_app.py, lines 14--33)\<close>

text \<open>
  The two dataclasses of the program. Python's unbounded \<open>int\<close> is \<open>int\<close>; Python's
  \<open>float\<close> is modelled by \<open>real\<close>, so rounding, infinities and NaN are outside the model.
\<close>

record Item =
  upc :: string
  description :: string
  max_qty :: int
  order_threshold :: int
  replenishment_qty :: int
  on_hand :: int
  unit_price :: real

definition update_on_hand :: "Item \<Rightarrow> int \<Rightarrow> Item" where
  "update_on_hand it delta = it\<lparr>on_hand := on_hand it + delta\<rparr>"

record SaleLine =
  upc :: string
  description :: string
  unit_price :: real
  qty :: int

text \<open>The exceptions that the modelled code can raise.\<close>

datatype error =
    ValueError
  | KeyError string
  | IndexError
  | OverflowError
  | OperationalError
  | EOFError

section \<open>SalesStore: the SQLite tables (lines 39--114)\<close>

text \<open>
  Table \<open>receipts\<close> maps \<open>receipt_no\<close> to the \<open>canceled\<close> flag; table \<open>receipt_lines\<close> is the
  list of its rows in insertion order, each row a receipt number and the copied line. It has
  no key: several rows may share \<open>(receipt_no, upc)\<close>. The field \<open>seq\<close> is the counter that
  SQLite keeps for an \<open>AUTOINCREMENT\<close> key (the largest \<open>receipt_no\<close> ever assigned).
  SQLite integers are 64-bit signed: binding a larger Python \<open>int\<close> raises
  \<open>OverflowError\<close>, and an \<open>AUTOINCREMENT\<close> key that has reached the largest value makes the
  insert fail. Every method opens its own connection as a context manager, which commits on
  success and rolls back when the body raises, so a failing method leaves the tables as they
  were.
\<close>

record SalesStore =
  seq :: int
  receipts :: "int \<rightharpoonup> bool"
  receipt_lines :: "(int \<times> SaleLine) list"

definition INT64_MAX :: int where
  "INT64_MAX = 9223372036854775807"

definition fits_int64 :: "int \<Rightarrow> bool" where
  "fits_int64 n \<longleftrightarrow> - INT64_MAX - 1 \<le> n \<and> n \<le> INT64_MAX"

text \<open>\<open>_init_db\<close>: \<open>CREATE TABLE IF NOT EXISTS\<close> keeps an existing database and creates
  empty tables otherwise.\<close>

definition empty_db :: SalesStore where
  "empty_db = \<lparr>seq = 0, receipts = Map.empty, receipt_lines = []\<rparr>"

definition init_db :: "SalesStore option \<Rightarrow> SalesStore" where
  "init_db existing = (case existing of None \<Rightarrow> empty_db | Some s \<Rightarrow> s)"

definition create_receipt :: "SalesStore \<Rightarrow> SaleLine list \<Rightarrow> error + (int \<times> SalesStore)" where
  "create_receipt s lines =
     (if INT64_MAX \<le> seq s then Inl OperationalError
      else if list_ex (\<lambda>l. \<not> fits_int64 (qty l)) lines then Inl OverflowError
      else
        let receipt_no = seq s + 1 in
        Inr (receipt_no,
             s\<lparr>seq := receipt_no,
               receipts := (receipts s)(receipt_no \<mapsto> False),
               receipt_lines := receipt_lines s @ map (Pair receipt_no) lines\<rparr>))"

definition get_receipt :: "SalesStore \<Rightarrow> int \<Rightarrow> error + (bool \<times> SaleLine list)" where
  "get_receipt s receipt_no =
     (if \<not> fits_int64 receipt_no then Inl OverflowError
      else case receipts s receipt_no of
        None \<Rightarrow> Inl ValueError
      | Some canceled \<Rightarrow>
          Inr (canceled, map snd (filter (\<lambda>r. fst r = receipt_no) (receipt_lines s))))"

definition set_canceled :: "SalesStore \<Rightarrow> int \<Rightarrow> SalesStore" where
  "set_canceled s receipt_no =
     (case receipts s receipt_no of
        None \<Rightarrow> s
      | Some _ \<Rightarrow> s\<lparr>receipts := (receipts s)(receipt_no \<mapsto> True)\<rparr>)"

definition update_line_qty :: "SalesStore \<Rightarrow> int \<Rightarrow> string \<Rightarrow> int \<Rightarrow> SalesStore" where
  "update_line_qty s receipt_no u new_qty =
     (if new_qty \<le> 0 then
        s\<lparr>receipt_lines :=
            filter (\<lambda>r. \<not> (fst r = receipt_no \<and> upc (snd r) = u)) (receipt_lines s)\<rparr>
      else
        s\<lparr>receipt_lines :=
            map (\<lambda>r. if fst r = receipt_no \<and> upc (snd r) = u
                      then (fst r, (snd r)\<lparr>qty := new_qty\<rparr>) else r)
                (receipt_lines s)\<rparr>)"

section \<open>POSApp (lines 120--340)\<close>

text \<open>
  The application object: the in-memory inventory dictionary, the receipt database, and the
  contents of the inventory file as \<open>save_inventory\<close> last wrote them. Objects are mutated in
  place, so a method that raises leaves the mutations made before the raise: every modelled
  method returns the state it ends in, also when its outcome is an exception.
\<close>

record POSApp =
  inventory :: "string \<rightharpoonup> Item"
  sales_store :: SalesStore
  inventory_csv :: "string \<rightharpoonup> Item"

definition save_inventory :: "POSApp \<Rightarrow> POSApp" where
  "save_inventory app = app\<lparr>inventory_csv := inventory app\<rparr>"

text \<open>\<open>calc_total\<close>: Python's \<open>sum\<close> adds from the left, starting at 0.\<close>

definition calc_total :: "SaleLine list \<Rightarrow> real" where
  "calc_total lines = foldl (+) 0 (map (\<lambda>l. unit_price l * real_of_int (qty l)) lines)"

text \<open>
  The loops \<open>for l in lines: self.inventory[l.upc].update_on_hand(d l)\<close> of lines 265--266
  (with \<open>d l = - qty l\<close>) and 307--308 (with \<open>d l = qty l\<close>). A missing key raises
  \<open>KeyError\<close>; the items updated before it stay updated.
\<close>

fun update_inventory :: "(SaleLine \<Rightarrow> int) \<Rightarrow> (string \<rightharpoonup> Item) \<Rightarrow> SaleLine list
    \<Rightarrow> error option \<times> (string \<rightharpoonup> Item)" where
  "update_inventory d stock [] = (None, stock)"
| "update_inventory d stock (l # ls) =
     (case stock (upc l) of
        None \<Rightarrow> (Some (KeyError (upc l)), stock)
      | Some it \<Rightarrow> update_inventory d (stock(upc l \<mapsto> update_on_hand it (d l))) ls)"

text \<open>Python list indexing: a negative index counts from the end.\<close>

definition py_index :: "'a list \<Rightarrow> int \<Rightarrow> nat option" where
  "py_index xs i =
     (if 0 \<le> i \<and> i < int (length xs) then Some (nat i)
      else if i < 0 \<and> - int (length xs) \<le> i then Some (nat (int (length xs) + i))
      else None)"

subsection \<open>start\_sale (lines 205--281)\<close>

text \<open>
  What the operator enters is given as data. A menu choice with its answers is a
  \<open>sale_action\<close>; an answer that \<open>int\<close> or \<open>float\<close> cannot parse is \<open>None\<close>. The answers at
  the prompt \<open>Cash received\<close> are a list, read until one is accepted; reading past its end
  is the end of the input (\<open>EOFError\<close>).
\<close>

datatype sale_action =
    AddItem string "int option"
  | RemoveItem "int option"
  | Checkout "real option list"
  | CancelSale
  | InvalidOption

datatype tender_msg = InvalidCashAmount | InsufficientTender

datatype sale_result =
    EmptySale
  | SaleCanceled
  | Committed int real
  | SaleRaised error

text \<open>Choice 1 (lines 216--232): the new list of sale lines.\<close>

definition add_item :: "(string \<rightharpoonup> Item) \<Rightarrow> SaleLine list \<Rightarrow> string \<Rightarrow> int option \<Rightarrow> SaleLine list" where
  "add_item stock sale_lines u qty_in =
     (case stock u of
        None \<Rightarrow> sale_lines
      | Some item \<Rightarrow>
          (case qty_in of
             None \<Rightarrow> sale_lines
           | Some q \<Rightarrow>
               if q \<le> 0 then sale_lines
               else sale_lines @ [\<lparr>upc = Item.upc item, description = Item.description item,
                                   unit_price = Item.unit_price item, qty = q\<rparr>]))"

text \<open>Choice 2 (lines 234--245).\<close>

definition remove_item :: "SaleLine list \<Rightarrow> int option \<Rightarrow> SaleLine list" where
  "remove_item sale_lines idx_in =
     (if sale_lines = [] then sale_lines
      else case idx_in of
        None \<Rightarrow> sale_lines
      | Some n \<Rightarrow>
          (case py_index sale_lines (n - 1) of
             None \<Rightarrow> sale_lines
           | Some k \<Rightarrow> take k sale_lines @ drop (Suc k) sale_lines))"

text \<open>The loop of lines 253--262: the messages printed and the cash accepted.\<close>

fun read_cash :: "real \<Rightarrow> real option list \<Rightarrow> tender_msg list \<times> real option" where
  "read_cash total_due [] = ([], None)"
| "read_cash total_due (None # rest) =
     (let (msgs, r) = read_cash total_due rest in (InvalidCashAmount # msgs, r))"
| "read_cash total_due (Some cash # rest) =
     (if cash < total_due
      then (let (msgs, r) = read_cash total_due rest in (InsufficientTender # msgs, r))
      else ([], Some cash))"

text \<open>Choice 3 (lines 247--274).\<close>

definition checkout :: "POSApp \<Rightarrow> SaleLine list \<Rightarrow> real option list
    \<Rightarrow> tender_msg list \<times> sale_result \<times> POSApp" where
  "checkout app sale_lines cashes =
     (if sale_lines = [] then ([], EmptySale, app)
      else
        let total_due = calc_total sale_lines in
        case read_cash total_due cashes of
          (msgs, None) \<Rightarrow> (msgs, SaleRaised EOFError, app)
        | (msgs, Some cash) \<Rightarrow>
            (case update_inventory (\<lambda>l. - qty l) (inventory app) sale_lines of
               (Some e, stock') \<Rightarrow> (msgs, SaleRaised e, app\<lparr>inventory := stock'\<rparr>)
             | (None, stock') \<Rightarrow>
                 (case create_receipt (sales_store app) sale_lines of
                    Inl e \<Rightarrow> (msgs, SaleRaised e, app\<lparr>inventory := stock'\<rparr>)
                  | Inr (receipt_no, s') \<Rightarrow>
                      (msgs, Committed receipt_no (cash - total_due),
                       save_inventory (app\<lparr>inventory := stock', sales_store := s'\<rparr>)))))"

text \<open>The menu loop of \<open>start_sale\<close>, with the sale lines as its local variable.\<close>

fun sale_menu :: "POSApp \<Rightarrow> SaleLine list \<Rightarrow> sale_action list
    \<Rightarrow> tender_msg list \<times> sale_result \<times> POSApp" where
  "sale_menu app sale_lines [] = ([], SaleRaised EOFError, app)"
| "sale_menu app sale_lines (AddItem u qty_in # rest) =
     sale_menu app (add_item (inventory app) sale_lines u qty_in) rest"
| "sale_menu app sale_lines (RemoveItem idx_in # rest) =
     sale_menu app (remove_item sale_lines idx_in) rest"
| "sale_menu app sale_lines (Checkout cashes # rest) = checkout app sale_lines cashes"
| "sale_menu app sale_lines (CancelSale # rest) = ([], SaleCanceled, app)"
| "sale_menu app sale_lines (InvalidOption # rest) = sale_menu app sale_lines rest"

definition start_sale :: "POSApp \<Rightarrow> sale_action list \<Rightarrow> tender_msg list \<times> sale_result \<times> POSApp" where
  "start_sale app actions = sale_menu app [] actions"

subsection \<open>process\_return (lines 284--340)\<close>

datatype return_choice =
    CancelEntireSale
  | ReturnOneItem "int option" "int option"
  | OtherChoice

datatype return_result =
    InvalidReceiptNumber
  | NotFound
  | AlreadyCanceled
  | FullReturnCompleted
  | InvalidInput
  | InvalidQty
  | PartialReturnCompleted
  | InvalidChoice
  | ReturnRaised error

text \<open>
  \<open>ReturnOneItem idx_in qty_in\<close> carries the answers to \<open>Line # to return from\<close> and
  \<open>Qty to return\<close>; the line is chosen by its position in the receipt (from 1), and the
  quantity is read only after \<open>lines[idx]\<close> succeeded.
\<close>

definition process_return :: "POSApp \<Rightarrow> int option \<Rightarrow> return_choice \<Rightarrow> return_result \<times> POSApp" where
  "process_return app receipt_in choice =
     (case receipt_in of
        None \<Rightarrow> (InvalidReceiptNumber, app)
      | Some receipt_no \<Rightarrow>
          (case get_receipt (sales_store app) receipt_no of
             Inl ValueError \<Rightarrow> (NotFound, app)
           | Inl e \<Rightarrow> (ReturnRaised e, app)
           | Inr (canceled, lines) \<Rightarrow>
               if canceled then (AlreadyCanceled, app)
               else
                 (case choice of
                    CancelEntireSale \<Rightarrow>
                      (case update_inventory qty (inventory app) lines of
                         (Some e, stock') \<Rightarrow> (ReturnRaised e, app\<lparr>inventory := stock'\<rparr>)
                       | (None, stock') \<Rightarrow>
                           (FullReturnCompleted,
                            save_inventory
                              (app\<lparr>inventory := stock',
                                   sales_store := set_canceled (sales_store app) receipt_no\<rparr>)))
                  | ReturnOneItem idx_in qty_in \<Rightarrow>
                      (case idx_in of
                         None \<Rightarrow> (InvalidInput, app)
                       | Some n \<Rightarrow>
                           (case py_index lines (n - 1) of
                              None \<Rightarrow> (InvalidInput, app)
                            | Some k \<Rightarrow>
                                (case qty_in of
                                   None \<Rightarrow> (InvalidInput, app)
                                 | Some return_qty \<Rightarrow>
                                     let line = lines ! k in
                                     if return_qty \<le> 0 \<or> return_qty > qty line
                                     then (InvalidQty, app)
                                     else
                                       (case inventory app (upc line) of
                                          None \<Rightarrow> (ReturnRaised (KeyError (upc line)), app)
                                        | Some it \<Rightarrow>
                                            (PartialReturnCompleted,
                                             save_inventory
                                               (app\<lparr>inventory :=
                                                      (inventory app)(upc line \<mapsto> update_on_hand it return_qty),
                                                    sales_store :=
                                                      update_line_qty (sales_store app) receipt_no
                                                        (upc line) (qty line - return_qty)\<rparr>))))))
                  | OtherChoice \<Rightarrow> (InvalidChoice, app))))"

section \<open>Well-formed states and derived quantities\<close>

text \<open>
  \<open>load_inventory\<close> stores every item under its own \<open>upc\<close> (line 144), and no method
  adds or removes a key afterwards.
\<close>

definition inventory_ok :: "(string \<rightharpoonup> Item) \<Rightarrow> bool" where
  "inventory_ok stock \<longleftrightarrow> (\<forall>u it. stock u = Some it \<longrightarrow> Item.upc it = u)"

text \<open>
  What SQLite and \<open>create_receipt\<close> maintain: the counter is at least every receipt number
  in use, and every row of \<open>receipt_lines\<close> belongs to a receipt.
\<close>

definition store_ok :: "SalesStore \<Rightarrow> bool" where
  "store_ok s \<longleftrightarrow>
     0 \<le> seq s \<and>
     (\<forall>n \<in> dom (receipts s). 0 < n \<and> n \<le> seq s) \<and>
     (\<forall>r \<in> set (receipt_lines s). fst r \<in> dom (receipts s))"

text \<open>
  The state of a running application: a well-formed inventory and store, and every stored
  line sells a positive quantity of an item of the inventory (lines 219 and 228).
\<close>

definition app_ok :: "POSApp \<Rightarrow> bool" where
  "app_ok app \<longleftrightarrow>
     inventory_ok (inventory app) \<and> store_ok (sales_store app) \<and>
     (\<forall>r \<in> set (receipt_lines (sales_store app)).
        upc (snd r) \<in> dom (inventory app) \<and> 0 < qty (snd r))"

text \<open>The units of item \<open>u\<close> on a list of lines.\<close>

definition units :: "SaleLine list \<Rightarrow> string \<Rightarrow> int" where
  "units lines u = sum_list (map qty (filter (\<lambda>l. upc l = u) lines))"

text \<open>The lines a receipt holds (empty for a receipt that does not exist).\<close>

definition lines_of :: "SalesStore \<Rightarrow> int \<Rightarrow> SaleLine list" where
  "lines_of s receipt_no = map snd (filter (\<lambda>r. fst r = receipt_no) (receipt_lines s))"

text \<open>
  A lifetime of the store: the calls made on it, in order. \<open>run_store\<close> returns the receipt
  numbers that the calls of \<open>create_receipt\<close> returned, in order, and the final store.
\<close>

datatype store_op =
    CreateReceipt "SaleLine list"
  | SetCanceled int
  | UpdateLineQty int string int

fun run_store :: "SalesStore \<Rightarrow> store_op list \<Rightarrow> int list \<times> SalesStore" where
  "run_store s [] = ([], s)"
| "run_store s (CreateReceipt lines # ops) =
     (case create_receipt s lines of
        Inl e \<Rightarrow> run_store s ops
      | Inr (n, s') \<Rightarrow> (let (ns, t) = run_store s' ops in (n # ns, t)))"
| "run_store s (SetCanceled n # ops) = run_store (set_canceled s n) ops"
| "run_store s (UpdateLineQty n u q # ops) = run_store (update_line_qty s n u q) ops"


section \<open>A small shop\<close>

text \<open>
  A concrete application state: two items loaded from the inventory file and a new, empty
  database. Item \<open>X\<close> has 10 units on hand, item \<open>Y\<close> 20 units at 2.00.
\<close>

definition item_X :: Item where
  "item_X = \<lparr>Item.upc = ''X'', description = ''Widget'', max_qty = 50, order_threshold = 5,
              replenishment_qty = 20, on_hand = 10, unit_price = 3\<rparr>"

definition item_Y :: Item where
  "item_Y = \<lparr>Item.upc = ''Y'', description = ''Gadget'', max_qty = 50, order_threshold = 5,
              replenishment_qty = 20, on_hand = 20, unit_price = 2\<rparr>"

definition shop :: POSApp where
  "shop = \<lparr>inventory = [''X'' \<mapsto> item_X, ''Y'' \<mapsto> item_Y],
           sales_store = init_db None,
           inventory_csv = [''X'' \<mapsto> item_X, ''Y'' \<mapsto> item_Y]\<rparr>"

text \<open>The sale line that choice 1 builds for \<open>q\<close> units of an item.\<close>

definition line_of :: "Item \<Rightarrow> int \<Rightarrow> SaleLine" where
  "line_of item q = \<lparr>upc = Item.upc item, description = Item.description item,
                      unit_price = Item.unit_price item, qty = q\<rparr>"

text \<open>The shop after the sale of 3 units of \<open>X\<close>, paid exactly.\<close>

definition shop_sold :: POSApp where
  "shop_sold = snd (snd (start_sale shop [AddItem ''X'' (Some 3), Checkout [Some 9]]))"

text \<open>The shop after one sale whose receipt has two lines of item \<open>X\<close>: 1 unit and 5 units.\<close>

definition shop_twice :: POSApp where
  "shop_twice = snd (snd (start_sale shop
      [AddItem ''X'' (Some 1), AddItem ''X'' (Some 5), Checkout [Some 18]]))"

text \<open>That shop after the return of 1 unit from the second line of the receipt.\<close>

definition shop_twice_back1 :: POSApp where
  "shop_twice_back1 = snd (process_return shop_twice (Some 1) (ReturnOneItem (Some 2) (Some 1)))"

section \<open>Basic facts about the model\<close>

lemma update_on_hand_0: "update_on_hand it 0 = it"
  by (simp add: update_on_hand_def)

lemma update_on_hand_add: "update_on_hand (update_on_hand it a) b = update_on_hand it (a + b)"
  by (simp add: update_on_hand_def)

lemma on_hand_update: "on_hand (update_on_hand it a) = on_hand it + a"
  by (simp add: update_on_hand_def)

lemma upc_update: "Item.upc (update_on_hand it a) = Item.upc it"
  by (simp add: update_on_hand_def)

lemma update_inventory_ok:
  "upc ` set lines \<subseteq> dom stock \<Longrightarrow>
   update_inventory d stock lines =
     (None, \<lambda>u. map_option (\<lambda>it. update_on_hand it (sum_list (map d (filter (\<lambda>l. upc l = u) lines)))) (stock u))"
proof (induction lines arbitrary: stock)
  case Nil
  show ?case by (simp add: update_on_hand_0 option.map_ident)
next
  case (Cons l ls)
  from Cons.prems obtain it where it: "stock (upc l) = Some it" by auto
  let ?s1 = "stock(upc l \<mapsto> update_on_hand it (d l))"
  have "upc ` set ls \<subseteq> dom ?s1" using Cons.prems by auto
  from Cons.IH[OF this] have
    "update_inventory d ?s1 ls =
       (None, \<lambda>u. map_option (\<lambda>it. update_on_hand it (sum_list (map d (filter (\<lambda>l. upc l = u) ls)))) (?s1 u))" .
  moreover have
    "(\<lambda>u. map_option (\<lambda>it. update_on_hand it (sum_list (map d (filter (\<lambda>l. upc l = u) ls)))) (?s1 u)) =
     (\<lambda>u. map_option (\<lambda>it. update_on_hand it (sum_list (map d (filter (\<lambda>l. upc l = u) (l # ls))))) (stock u))"
  proof
    fix u
    show "map_option (\<lambda>it. update_on_hand it (sum_list (map d (filter (\<lambda>l. upc l = u) ls)))) (?s1 u) =
          map_option (\<lambda>it. update_on_hand it (sum_list (map d (filter (\<lambda>l. upc l = u) (l # ls))))) (stock u)"
      using it by (cases "upc l = u") (auto simp: update_on_hand_add)
  qed
  ultimately show ?case using it by simp
qed

lemma update_inventory_fail:
  "\<not> upc ` set lines \<subseteq> dom stock \<Longrightarrow> \<exists>u stock'. update_inventory d stock lines = (Some (KeyError u), stock')"
proof (induction lines arbitrary: stock)
  case Nil then show ?case by simp
next
  case (Cons l ls)
  show ?case
  proof (cases "stock (upc l)")
    case None then show ?thesis by simp
  next
    case (Some it)
    let ?s1 = "stock(upc l \<mapsto> update_on_hand it (d l))"
    have ne: "\<not> upc ` set ls \<subseteq> dom ?s1" using Cons.prems Some by auto
    have eq: "update_inventory d stock (l # ls) = update_inventory d ?s1 ls"
      using Some by simp
    from Cons.IH[OF ne] obtain u stock' where
      "update_inventory d ?s1 ls = (Some (KeyError u), stock')" by blast
    with eq have "update_inventory d stock (l # ls) = (Some (KeyError u), stock')"
      by (simp only:)
    then show ?thesis by blast
  qed
qed


lemma sum_list_neg_qty:
  "sum_list (map (\<lambda>l. - qty l) ls) = - sum_list (map qty ls)"
  by (induction ls) simp_all

lemma update_inventory_sale:
  "upc ` set lines \<subseteq> dom stock \<Longrightarrow>
   update_inventory (\<lambda>l. - qty l) stock lines =
     (None, \<lambda>u. map_option (\<lambda>it. update_on_hand it (- units lines u)) (stock u))"
  by (simp add: update_inventory_ok units_def sum_list_neg_qty)

lemma update_inventory_return:
  "upc ` set lines \<subseteq> dom stock \<Longrightarrow>
   update_inventory qty stock lines =
     (None, \<lambda>u. map_option (\<lambda>it. update_on_hand it (units lines u)) (stock u))"
  by (simp add: update_inventory_ok units_def)

lemma update_inventory_None_dom:
  "update_inventory d stock lines = (None, stock') \<Longrightarrow> upc ` set lines \<subseteq> dom stock"
  using update_inventory_fail[of lines stock d] by auto

lemma create_receipt_Inr:
  "create_receipt s lines = Inr (n, s') \<Longrightarrow>
     seq s < INT64_MAX \<and> n = seq s + 1 \<and>
     s' = s\<lparr>seq := n, receipts := (receipts s)(n \<mapsto> False),
            receipt_lines := receipt_lines s @ map (Pair n) lines\<rparr>"
  by (auto simp: create_receipt_def Let_def split: if_splits)


lemma store_ok_receiptD:
  "store_ok s \<Longrightarrow> receipts s m = Some b \<Longrightarrow> 0 < m \<and> m \<le> seq s"
  unfolding store_ok_def by (blast intro: domI)

lemma store_ok_lineD:
  "store_ok s \<Longrightarrow> r \<in> set (receipt_lines s) \<Longrightarrow> \<exists>b. receipts s (fst r) = Some b"
  unfolding store_ok_def by blast

lemma store_okI:
  "0 \<le> seq s \<Longrightarrow> (\<And>m b. receipts s m = Some b \<Longrightarrow> 0 < m \<and> m \<le> seq s) \<Longrightarrow>
   (\<And>r. r \<in> set (receipt_lines s) \<Longrightarrow> \<exists>b. receipts s (fst r) = Some b) \<Longrightarrow> store_ok s"
  unfolding store_ok_def by (auto simp: dom_def)

lemma filter_other_receipt:
  "\<forall>r \<in> set rows. fst r \<noteq> n \<Longrightarrow> filter (\<lambda>r. fst r = n) rows = []"
  by (induction rows) auto

lemma lines_of_create:
  assumes "store_ok s" and "create_receipt s lines = Inr (n, s')"
  shows "lines_of s' n = lines"
proof -
  from create_receipt_Inr[OF assms(2)] have n: "n = seq s + 1"
    and s': "receipt_lines s' = receipt_lines s @ map (Pair n) lines" by simp_all
  have "\<forall>r \<in> set (receipt_lines s). fst r \<noteq> n"
  proof
    fix r assume "r \<in> set (receipt_lines s)"
    from store_ok_lineD[OF assms(1) this] obtain b where "receipts s (fst r) = Some b" ..
    from store_ok_receiptD[OF assms(1) this] show "fst r \<noteq> n" using n by simp
  qed
  then have "filter (\<lambda>r. fst r = n) (receipt_lines s) = []" by (rule filter_other_receipt)
  moreover have "map snd (filter (\<lambda>r. fst r = n) (map (Pair n) lines)) = lines"
    by (induction lines) simp_all
  ultimately show ?thesis by (simp add: lines_of_def s')
qed

lemma store_ok_create:
  assumes "store_ok s" and "create_receipt s lines = Inr (n, s')"
  shows "store_ok s'"
proof (rule store_okI)
  note c = create_receipt_Inr[OF assms(2)]
  show "0 \<le> seq s'" using c assms(1) by (simp add: store_ok_def)
  show "0 < m \<and> m \<le> seq s'" if "receipts s' m = Some b" for m b
    using that c store_ok_receiptD[OF assms(1), of m] assms(1)
    by (cases "m = n") (auto simp: store_ok_def)
  show "\<exists>b. receipts s' (fst r) = Some b" if "r \<in> set (receipt_lines s')" for r
    using that c store_ok_lineD[OF assms(1), of r] by auto
qed

lemma fresh_create:
  assumes "store_ok s" and "create_receipt s lines = Inr (n, s')"
  shows "receipts s n = None" and "\<forall>m \<in> dom (receipts s). m < n" and "fits_int64 n"
proof -
  note c = create_receipt_Inr[OF assms(2)]
  show "receipts s n = None"
  proof (cases "receipts s n")
    case (Some b)
    from store_ok_receiptD[OF assms(1) this] c show ?thesis by simp
  qed simp
  show "\<forall>m \<in> dom (receipts s). m < n"
  proof
    fix m assume "m \<in> dom (receipts s)"
    then obtain b where "receipts s m = Some b" by auto
    from store_ok_receiptD[OF assms(1) this] c show "m < n" by simp
  qed
  show "fits_int64 n" using c assms(1) by (simp add: fits_int64_def store_ok_def INT64_MAX_def)
qed

lemma get_receipt_create:
  assumes "store_ok s" and "create_receipt s lines = Inr (n, s')"
  shows "get_receipt s' n = Inr (False, lines)"
proof -
  have "receipts s' n = Some False" using create_receipt_Inr[OF assms(2)] by simp
  moreover have "lines_of s' n = lines" by (rule lines_of_create[OF assms])
  ultimately show ?thesis using fresh_create(3)[OF assms]
    by (simp add: get_receipt_def lines_of_def)
qed

lemma store_ok_set_canceled: "store_ok s \<Longrightarrow> store_ok (set_canceled s n)"
  unfolding store_ok_def set_canceled_def by (auto split: option.splits)

lemma store_ok_update_line_qty: "store_ok s \<Longrightarrow> store_ok (update_line_qty s n u q)"
  by (auto simp: store_ok_def update_line_qty_def)

lemma store_ok_empty: "store_ok empty_db"
  by (simp add: store_ok_def empty_db_def)

lemma read_cash_accept:
  "read_cash t cashes = (msgs, Some cash) \<Longrightarrow> \<not> cash < t \<and> Some cash \<in> set cashes"
proof (induction t cashes arbitrary: msgs rule: read_cash.induct)
  case (1 t) then show ?case by simp
next
  case (2 t rest) then show ?case by (auto split: prod.splits)
next
  case (3 t c rest) then show ?case by (auto split: prod.splits if_splits)
qed

lemma checkout_committed:
  assumes "checkout app lines cashes = (msgs, Committed n c, app')"
  shows "lines \<noteq> []" and "upc ` set lines \<subseteq> dom (inventory app)"
    and "\<exists>cash. read_cash (calc_total lines) cashes = (msgs, Some cash) \<and> c = cash - calc_total lines"
    and "\<exists>s'. create_receipt (sales_store app) lines = Inr (n, s') \<and>
           app' = \<lparr>inventory = (\<lambda>u. map_option (\<lambda>it. update_on_hand it (- units lines u)) (inventory app u)),
                   sales_store = s',
                   inventory_csv = (\<lambda>u. map_option (\<lambda>it. update_on_hand it (- units lines u)) (inventory app u))\<rparr>"
proof -
  show ne: "lines \<noteq> []" using assms by (auto simp: checkout_def)
  obtain ms r where rc: "read_cash (calc_total lines) cashes = (ms, r)" by (cases "read_cash (calc_total lines) cashes")
  obtain e stock' where ui: "update_inventory (\<lambda>l. - qty l) (inventory app) lines = (e, stock')"
    by (cases "update_inventory (\<lambda>l. - qty l) (inventory app) lines")
  from assms ne rc ui have r: "r \<noteq> None" and e: "e = None" and ms: "ms = msgs"
    by (auto simp: checkout_def Let_def split: option.splits sum.splits prod.splits)
  from ui e show dom: "upc ` set lines \<subseteq> dom (inventory app)"
    by (auto dest: update_inventory_None_dom)
  from r obtain cash where cash: "r = Some cash" by auto
  from assms ne rc ui cash e ms show "\<exists>cash. read_cash (calc_total lines) cashes = (msgs, Some cash) \<and> c = cash - calc_total lines"
    by (auto simp: checkout_def Let_def split: option.splits sum.splits prod.splits)
  from ui e update_inventory_sale[OF dom] have st: "stock' = (\<lambda>u. map_option (\<lambda>it. update_on_hand it (- units lines u)) (inventory app u))"
    by simp
  from assms ne rc ui cash e ms st show "\<exists>s'. create_receipt (sales_store app) lines = Inr (n, s') \<and>
           app' = \<lparr>inventory = (\<lambda>u. map_option (\<lambda>it. update_on_hand it (- units lines u)) (inventory app u)),
                   sales_store = s',
                   inventory_csv = (\<lambda>u. map_option (\<lambda>it. update_on_hand it (- units lines u)) (inventory app u))\<rparr>"
    by (auto simp: checkout_def Let_def save_inventory_def split: option.splits sum.splits prod.splits)
qed


lemma sum_units:
  "finite S \<Longrightarrow> upc ` set lines \<subseteq> S \<Longrightarrow> (\<Sum>u\<in>S. units lines u) = sum_list (map qty lines)"
proof (induction lines)
  case Nil then show ?case by (simp add: units_def)
next
  case (Cons l ls)
  then have IH: "(\<Sum>u\<in>S. units ls u) = sum_list (map qty ls)" and l: "upc l \<in> S" by auto
  have "units (l # ls) u = (if u = upc l then qty l else 0) + units ls u" for u
    by (auto simp: units_def)
  then have "(\<Sum>u\<in>S. units (l # ls) u) = (\<Sum>u\<in>S. if u = upc l then qty l else 0) + (\<Sum>u\<in>S. units ls u)"
    by (simp add: sum.distrib)
  also have "(\<Sum>u\<in>S. if u = upc l then qty l else 0) = qty l"
    using Cons.prems(1) l by simp
  finally show ?case using IH by simp
qed

lemma get_receipt_create_other:
  assumes "create_receipt s lines = Inr (n, s')" and "store_ok s" and "m \<noteq> n"
  shows "get_receipt s' m = get_receipt s m"
proof -
  note c = create_receipt_Inr[OF assms(1)]
  have f: "filter (\<lambda>r. fst r = m) (map (Pair n) lines) = []"
    using assms(3) by (induction lines) auto
  have "receipt_lines s' = receipt_lines s @ map (Pair n) lines"
    and "receipts s' m = receipts s m" using c assms(3) by simp_all
  then show ?thesis using f by (simp add: get_receipt_def split: option.splits)
qed

lemma units_distinct:
  "distinct (map upc lines) \<Longrightarrow> l \<in> set lines \<Longrightarrow> units lines (upc l) = qty l"
proof (induction lines)
  case Nil then show ?case by simp
next
  case (Cons a ls)
  show ?case
  proof (cases "l = a")
    case True
    have "\<forall>x \<in> set ls. upc x \<noteq> upc a"
    proof
      fix x assume "x \<in> set ls"
      then have "upc x \<in> upc ` set ls" by simp
      with Cons.prems(1) show "upc x \<noteq> upc a" by auto
    qed
    then have "filter (\<lambda>x. upc x = upc a) ls = []" by (simp add: filter_empty_conv)
    then show ?thesis using True by (simp add: units_def)
  next
    case False
    then have "l \<in> set ls" using Cons.prems by simp
    moreover from this have "upc a \<noteq> upc l" using Cons.prems(1) by auto
    ultimately show ?thesis using Cons by (simp add: units_def)
  qed
qed

lemma store_ok_shop: "store_ok (sales_store shop)"
  by (simp add: shop_def init_db_def store_ok_empty)

lemma shop_sale_X3:
  "checkout shop [line_of item_X 3] [Some 9] =
     ([], Committed 1 0, snd (snd (checkout shop [line_of item_X 3] [Some 9])))"
  by (simp add: checkout_def calc_total_def line_of_def item_X_def shop_def init_db_def empty_db_def
      create_receipt_def fits_int64_def INT64_MAX_def Let_def)


section \<open>Committed sales and their receipts\<close>

text \<open>
  Claim C1. Every committed sale (a checkout that returns a receipt number) has created one
  new receipt that holds exactly the given lines and has left every other receipt as it was,
  and has decremented the \<open>on_hand\<close> of each item by the units of that item on the lines (by
  the line's own \<open>qty\<close> when no two lines share an item): the units removed from the
  inventory, summed over the items sold, are the units on the given lines, which are the
  units on the created receipt.
\<close>

theorem sale_commit_quantities:
  assumes "store_ok (sales_store app)"
      and "checkout app lines cashes = (msgs, Committed receipt_no change, app')"
  shows "get_receipt (sales_store app) receipt_no = Inl ValueError \<and>
         get_receipt (sales_store app') receipt_no = Inr (False, lines) \<and>
         (\<forall>m. m \<noteq> receipt_no \<longrightarrow> get_receipt (sales_store app') m = get_receipt (sales_store app) m) \<and>
         (\<forall>u. inventory app' u = map_option (\<lambda>it. update_on_hand it (- units lines u)) (inventory app u)) \<and>
         (\<forall>l \<in> set lines. \<exists>it. inventory app (upc l) = Some it \<and>
             (distinct (map upc lines) \<longrightarrow> inventory app' (upc l) = Some (update_on_hand it (- qty l)))) \<and>
         (\<Sum>u \<in> upc ` set lines. on_hand (the (inventory app u)) - on_hand (the (inventory app' u)))
           = sum_list (map qty lines) \<and>
         sum_list (map qty lines) = sum_list (map qty (lines_of (sales_store app') receipt_no))"
proof -
  note c = checkout_committed[OF assms(2)]
  from c(4) obtain s' where cr: "create_receipt (sales_store app) lines = Inr (receipt_no, s')"
    and inv': "inventory app' = (\<lambda>u. map_option (\<lambda>it. update_on_hand it (- units lines u)) (inventory app u))"
    and st': "sales_store app' = s'" by auto
  have 1: "get_receipt (sales_store app) receipt_no = Inl ValueError"
    using fresh_create[OF assms(1) cr] by (simp add: get_receipt_def)
  have 2: "get_receipt (sales_store app') receipt_no = Inr (False, lines)"
    using get_receipt_create[OF assms(1) cr] st' by simp
  have 3: "\<forall>m. m \<noteq> receipt_no \<longrightarrow> get_receipt (sales_store app') m = get_receipt (sales_store app) m"
    using get_receipt_create_other[OF cr assms(1)] st' by simp
  have 4: "\<forall>u. inventory app' u = map_option (\<lambda>it. update_on_hand it (- units lines u)) (inventory app u)"
    using inv' by simp
  have 5: "\<forall>l \<in> set lines. \<exists>it. inventory app (upc l) = Some it \<and>
             (distinct (map upc lines) \<longrightarrow> inventory app' (upc l) = Some (update_on_hand it (- qty l)))"
  proof
    fix l assume l: "l \<in> set lines"
    with c(2) obtain it where it: "inventory app (upc l) = Some it" by auto
    then show "\<exists>it. inventory app (upc l) = Some it \<and>
             (distinct (map upc lines) \<longrightarrow> inventory app' (upc l) = Some (update_on_hand it (- qty l)))"
      using l by (auto simp: inv' units_distinct)
  qed
  have "on_hand (the (inventory app u)) - on_hand (the (inventory app' u)) = units lines u"
    if "u \<in> upc ` set lines" for u
  proof -
    from that c(2) obtain it where "inventory app u = Some it" by auto
    then show ?thesis by (simp add: inv' on_hand_update)
  qed
  then have "(\<Sum>u \<in> upc ` set lines. on_hand (the (inventory app u)) - on_hand (the (inventory app' u)))
      = (\<Sum>u \<in> upc ` set lines. units lines u)" by simp
  also have "\<dots> = sum_list (map qty lines)" by (rule sum_units) simp_all
  finally have 6: "(\<Sum>u \<in> upc ` set lines. on_hand (the (inventory app u)) - on_hand (the (inventory app' u)))
      = sum_list (map qty lines)" .
  have 7: "sum_list (map qty lines) = sum_list (map qty (lines_of (sales_store app') receipt_no))"
    using lines_of_create[OF assms(1) cr] st' by simp
  from 1 2 3 4 5 6 7 show ?thesis by blast
qed


theorem sale_commit_quantities_witness:
  "store_ok (sales_store shop) \<and>
   checkout shop [line_of item_X 3] [Some 9] =
     ([], Committed 1 0, snd (snd (checkout shop [line_of item_X 3] [Some 9]))) \<and>
   get_receipt (sales_store (snd (snd (checkout shop [line_of item_X 3] [Some 9])))) 1
     = Inr (False, [line_of item_X 3]) \<and>
   on_hand (the (inventory shop ''X'')) -
     on_hand (the (inventory (snd (snd (checkout shop [line_of item_X 3] [Some 9]))) ''X'')) = 3"
proof -
  note t = sale_commit_quantities[OF store_ok_shop shop_sale_X3]
  have a: "get_receipt (sales_store (snd (snd (checkout shop [line_of item_X 3] [Some 9])))) 1
     = Inr (False, [line_of item_X 3])" using t by blast
  have "(\<Sum>u \<in> upc ` set [line_of item_X 3]. on_hand (the (inventory shop u)) -
          on_hand (the (inventory (snd (snd (checkout shop [line_of item_X 3] [Some 9]))) u)))
        = sum_list (map qty [line_of item_X 3])" using t by blast
  then have b: "on_hand (the (inventory shop ''X'')) -
     on_hand (the (inventory (snd (snd (checkout shop [line_of item_X 3] [Some 9]))) ''X'')) = 3"
    by (simp add: line_of_def item_X_def)
  from store_ok_shop shop_sale_X3 a b show ?thesis by blast
qed

section \<open>Receipt numbers\<close>

lemma seq_set_canceled: "seq (set_canceled s n) = seq s"
  by (simp add: set_canceled_def split: option.splits)

lemma seq_update_line_qty: "seq (update_line_qty s n u q) = seq s"
  by (simp add: update_line_qty_def)

lemma run_store_increasing:
  "store_ok s \<Longrightarrow> run_store s ops = (ns, t) \<Longrightarrow>
     sorted_wrt (<) ns \<and> (\<forall>n \<in> set ns. seq s < n \<and> n \<le> seq t) \<and> seq s \<le> seq t \<and> store_ok t"
proof (induction s ops arbitrary: ns t rule: run_store.induct)
  case (1 s)
  then show ?case by simp
next
  case (2 s lines ops)
  show ?case
  proof (cases "create_receipt s lines")
    case (Inl e)
    with 2 show ?thesis by simp
  next
    case (Inr p)
    obtain n s' where p: "p = (n, s')" by (cases p)
    obtain ns' t' where r: "run_store s' ops = (ns', t')" by (cases "run_store s' ops")
    from Inr p have cr: "create_receipt s lines = Inr (n, s')" by simp
    note c = create_receipt_Inr[OF cr]
    have ok': "store_ok s'" by (rule store_ok_create[OF "2.prems"(1) cr])
    from "2.prems"(2) Inr p r have ns: "ns = n # ns'" and t: "t = t'" by simp_all
    from "2.IH"(2)[OF Inr p[symmetric] ok' r]
    have IH: "sorted_wrt (<) ns'" "\<forall>m \<in> set ns'. seq s' < m \<and> m \<le> seq t'" "seq s' \<le> seq t'" "store_ok t'"
      by simp_all
    have s': "seq s' = n" "seq s < n" using c by simp_all
    show ?thesis using IH s' ns t by auto
  qed
next
  case (3 s n ops)
  from "3.IH"[OF store_ok_set_canceled[OF "3.prems"(1)]] "3.prems"(2)
  show ?case by (simp add: seq_set_canceled)
next
  case (4 s n u q ops)
  from "4.IH"[OF store_ok_update_line_qty[OF "4.prems"(1)]] "4.prems"(2)
  show ?case by (simp add: seq_update_line_qty)
qed


text \<open>
  Claim C9. Over any sequence of calls on a well-formed store (an empty database is one), the
  receipt numbers that \<open>create_receipt\<close> returns are strictly increasing, hence pairwise
  different; each is unused in, and greater than every receipt number of, the store the
  sequence started from; and the number that a further call returns is unused and greater
  than every number in the store and every number returned before.
\<close>

theorem receipt_no_strictly_increasing:
  assumes "store_ok s" and "run_store s ops = (ns, t)"
  shows "sorted_wrt (<) ns \<and> distinct ns \<and>
         (\<forall>n \<in> set ns. receipts s n = None \<and> (\<forall>m \<in> dom (receipts s). m < n)) \<and>
         (\<forall>lines n t'. create_receipt t lines = Inr (n, t') \<longrightarrow>
            receipts t n = None \<and> (\<forall>m \<in> dom (receipts t). m < n) \<and> (\<forall>m \<in> set ns. m < n))"
proof -
  note r = run_store_increasing[OF assms]
  have 1: "sorted_wrt (<) ns" using r by simp
  then have 2: "distinct ns" by (simp add: strict_sorted_iff)
  have 3: "\<forall>n \<in> set ns. receipts s n = None \<and> (\<forall>m \<in> dom (receipts s). m < n)"
  proof
    fix n assume "n \<in> set ns"
    with r have n: "seq s < n" by simp
    have "m < n" if "receipts s m = Some b" for m b
      using store_ok_receiptD[OF assms(1) that] n by simp
    then show "receipts s n = None \<and> (\<forall>m \<in> dom (receipts s). m < n)"
      by (cases "receipts s n") auto
  qed
  have 4: "\<forall>lines n t'. create_receipt t lines = Inr (n, t') \<longrightarrow>
            receipts t n = None \<and> (\<forall>m \<in> dom (receipts t). m < n) \<and> (\<forall>m \<in> set ns. m < n)"
  proof (intro allI impI)
    fix lines n t' assume cr: "create_receipt t lines = Inr (n, t')"
    have ok: "store_ok t" using r by simp
    have "n = seq t + 1" using create_receipt_Inr[OF cr] by simp
    then have "\<forall>m \<in> set ns. m < n" using r by auto
    then show "receipts t n = None \<and> (\<forall>m \<in> dom (receipts t). m < n) \<and> (\<forall>m \<in> set ns. m < n)"
      using fresh_create(1,2)[OF ok cr] by simp
  qed
  from 1 2 3 4 show ?thesis by blast
qed


lemma run_store_example:
  "run_store empty_db [CreateReceipt [line_of item_X 3], UpdateLineQty 1 ''X'' 1, SetCanceled 1,
                       CreateReceipt [], CreateReceipt [line_of item_Y 5]] =
     ([1, 2, 3], snd (run_store empty_db [CreateReceipt [line_of item_X 3], UpdateLineQty 1 ''X'' 1, SetCanceled 1,
                       CreateReceipt [], CreateReceipt [line_of item_Y 5]]))"
  by (simp add: empty_db_def create_receipt_def set_canceled_def update_line_qty_def line_of_def
      fits_int64_def INT64_MAX_def Let_def item_X_def item_Y_def)

theorem receipt_no_strictly_increasing_witness:
  "store_ok empty_db \<and>
   fst (run_store empty_db [CreateReceipt [line_of item_X 3], UpdateLineQty 1 ''X'' 1, SetCanceled 1,
                       CreateReceipt [], CreateReceipt [line_of item_Y 5]]) = [1, 2, 3] \<and>
   sorted_wrt (<) [1, 2, 3 :: int]"
proof -
  note t = receipt_no_strictly_increasing[OF store_ok_empty run_store_example]
  have "sorted_wrt (<) [1, 2, 3 :: int]" using t by blast
  moreover have "fst (run_store empty_db [CreateReceipt [line_of item_X 3], UpdateLineQty 1 ''X'' 1, SetCanceled 1,
                       CreateReceipt [], CreateReceipt [line_of item_Y 5]]) = [1, 2, 3]"
    using run_store_example by (metis fst_conv)
  ultimately show ?thesis using store_ok_empty by blast
qed

section \<open>Returns and well-formed states\<close>

lemma get_receipt_Inr:
  "get_receipt s n = Inr (c, lines) \<Longrightarrow>
     fits_int64 n \<and> receipts s n = Some c \<and> lines = lines_of s n"
  by (auto simp: get_receipt_def lines_of_def split: if_splits option.splits)


lemma lines_of_subset: "l \<in> set (lines_of s n) \<Longrightarrow> (n, l) \<in> set (receipt_lines s)"
  by (auto simp: lines_of_def)

lemma app_ok_lines:
  assumes "app_ok app" and "l \<in> set (lines_of (sales_store app) n)"
  shows "upc l \<in> dom (inventory app)" and "0 < qty l"
proof -
  from lines_of_subset[OF assms(2)] have "(n, l) \<in> set (receipt_lines (sales_store app))" .
  with assms(1) have "upc (snd (n, l)) \<in> dom (inventory app) \<and> 0 < qty (snd (n, l))"
    unfolding app_ok_def by blast
  then show "upc l \<in> dom (inventory app)" and "0 < qty l" by simp_all
qed

lemma lines_of_set_canceled: "lines_of (set_canceled s n) m = lines_of s m"
  by (simp add: lines_of_def set_canceled_def split: option.splits)

lemma receipts_set_canceled:
  "receipts (set_canceled s n) m = (if m = n \<and> receipts s n \<noteq> None then Some True else receipts s m)"
  by (auto simp: set_canceled_def split: option.splits)


lemma lines_of_update_line_qty_other:
  "m \<noteq> n \<Longrightarrow> lines_of (update_line_qty s n u q) m = lines_of s m"
proof -
  assume mn: "m \<noteq> n"
  have "filter (\<lambda>r. fst r = m) (filter (\<lambda>r. \<not> (fst r = n \<and> upc (snd r) = u)) rows) =
        filter (\<lambda>r. fst r = m) rows" for rows :: "(int \<times> SaleLine) list"
    using mn by (induction rows) auto
  moreover have "map snd (filter (\<lambda>r. fst r = m)
          (map (\<lambda>r. if fst r = n \<and> upc (snd r) = u then (fst r, (snd r)\<lparr>qty := q\<rparr>) else r) rows)) =
        map snd (filter (\<lambda>r. fst r = m) rows)"
    for rows :: "(int \<times> SaleLine) list"
    using mn by (induction rows) auto
  ultimately show ?thesis by (simp add: lines_of_def update_line_qty_def)
qed


lemma py_index_Some: "py_index xs i = Some k \<Longrightarrow> k < length xs"
  by (auto simp: py_index_def split: if_splits)

lemma process_return_canceled:
  "get_receipt (sales_store app) n = Inr (True, lines) \<Longrightarrow>
   process_return app (Some n) choice = (AlreadyCanceled, app)"
  by (simp add: process_return_def)

lemma process_return_full:
  assumes "get_receipt (sales_store app) n = Inr (False, lines)"
      and "upc ` set lines \<subseteq> dom (inventory app)"
  shows "process_return app (Some n) CancelEntireSale =
     (FullReturnCompleted,
      \<lparr>inventory = (\<lambda>u. map_option (\<lambda>it. update_on_hand it (units lines u)) (inventory app u)),
       sales_store = set_canceled (sales_store app) n,
       inventory_csv = (\<lambda>u. map_option (\<lambda>it. update_on_hand it (units lines u)) (inventory app u))\<rparr>)"
  using assms(1) update_inventory_return[OF assms(2)]
  by (simp add: process_return_def save_inventory_def)

lemma process_return_partial:
  assumes "get_receipt (sales_store app) n = Inr (False, lines)"
      and "py_index lines (i - 1) = Some k"
      and "inventory app (upc (lines ! k)) = Some it"
  shows "process_return app (Some n) (ReturnOneItem (Some i) (Some rq)) =
     (if rq \<le> 0 \<or> rq > qty (lines ! k) then (InvalidQty, app)
      else (PartialReturnCompleted,
        \<lparr>inventory = (inventory app)(upc (lines ! k) \<mapsto> update_on_hand it rq),
         sales_store = update_line_qty (sales_store app) n (upc (lines ! k)) (qty (lines ! k) - rq),
         inventory_csv = (inventory app)(upc (lines ! k) \<mapsto> update_on_hand it rq)\<rparr>))"
  using assms by (simp add: process_return_def save_inventory_def Let_def)

lemma app_okI:
  "inventory_ok (inventory app) \<Longrightarrow> store_ok (sales_store app) \<Longrightarrow>
   (\<And>n l. (n, l) \<in> set (receipt_lines (sales_store app)) \<Longrightarrow>
      upc l \<in> dom (inventory app) \<and> 0 < qty l) \<Longrightarrow> app_ok app"
proof -
  assume a: "inventory_ok (inventory app)" and b: "store_ok (sales_store app)"
    and c: "\<And>n l. (n, l) \<in> set (receipt_lines (sales_store app)) \<Longrightarrow>
      upc l \<in> dom (inventory app) \<and> 0 < qty l"
  have "\<forall>r \<in> set (receipt_lines (sales_store app)).
        upc (snd r) \<in> dom (inventory app) \<and> 0 < qty (snd r)"
  proof
    fix r assume "r \<in> set (receipt_lines (sales_store app))"
    then have "(fst r, snd r) \<in> set (receipt_lines (sales_store app))" by simp
    from c[OF this] show "upc (snd r) \<in> dom (inventory app) \<and> 0 < qty (snd r)" .
  qed
  with a b show ?thesis unfolding app_ok_def by blast
qed

lemma app_okD:
  assumes "app_ok app"
  shows "inventory_ok (inventory app)" and "store_ok (sales_store app)"
    and "\<And>n l. (n, l) \<in> set (receipt_lines (sales_store app)) \<Longrightarrow>
      upc l \<in> dom (inventory app) \<and> 0 < qty l"
proof -
  from assms show "inventory_ok (inventory app)" and "store_ok (sales_store app)"
    unfolding app_ok_def by blast+
  fix n l assume "(n, l) \<in> set (receipt_lines (sales_store app))"
  with assms have "upc (snd (n, l)) \<in> dom (inventory app) \<and> 0 < qty (snd (n, l))"
    unfolding app_ok_def by blast
  then show "upc l \<in> dom (inventory app) \<and> 0 < qty l" by simp
qed

lemma inventory_ok_adjust:
  "inventory_ok stock \<Longrightarrow>
   inventory_ok (\<lambda>u. map_option (\<lambda>it. update_on_hand it (g u)) (stock u))"
  by (auto simp: inventory_ok_def upc_update)

lemma dom_adjust:
  "dom (\<lambda>u. map_option (\<lambda>it. update_on_hand it (g u)) (stock u)) = dom stock"
  by (auto simp: dom_def)

lemma inventory_ok_upd:
  "inventory_ok stock \<Longrightarrow> stock u = Some it \<Longrightarrow> inventory_ok (stock(u \<mapsto> update_on_hand it d))"
  by (auto simp: inventory_ok_def upc_update)

lemma update_inventory_keeps:
  "update_inventory d stock lines = (e, stock') \<Longrightarrow>
     dom stock' = dom stock \<and> (inventory_ok stock \<longrightarrow> inventory_ok stock')"
proof (induction lines arbitrary: stock)
  case Nil then show ?case by simp
next
  case (Cons l ls)
  show ?case
  proof (cases "stock (upc l)")
    case None with Cons.prems show ?thesis by simp
  next
    case (Some it)
    let ?s1 = "stock(upc l \<mapsto> update_on_hand it (d l))"
    from Cons.prems Some have "update_inventory d ?s1 ls = (e, stock')" by simp
    from Cons.IH[OF this] have 1: "dom stock' = dom ?s1" and 2: "inventory_ok ?s1 \<longrightarrow> inventory_ok stock'"
      by blast+
    have 3: "dom ?s1 = dom stock" using Some by auto
    have 4: "inventory_ok stock \<longrightarrow> inventory_ok ?s1" using Some by (simp add: inventory_ok_upd)
    from 1 2 3 4 show ?thesis by (simp only:) blast
  qed
qed

lemma app_ok_checkout:
  assumes "app_ok app" and "\<forall>l \<in> set lines. 0 < qty l"
    and "upc ` set lines \<subseteq> dom (inventory app)"
  shows "app_ok (snd (snd (checkout app lines cashes)))"
proof (cases "lines = []")
  case True then show ?thesis using assms(1) by (simp add: checkout_def)
next
  case ne: False
  obtain ms r where rc: "read_cash (calc_total lines) cashes = (ms, r)"
    by (cases "read_cash (calc_total lines) cashes")
  show ?thesis
  proof (cases r)
    case None
    then show ?thesis using ne rc assms(1) by (simp add: checkout_def)
  next
    case (Some cash)
    let ?stock' = "\<lambda>u. map_option (\<lambda>it. update_on_hand it (- units lines u)) (inventory app u)"
    note ui = update_inventory_sale[OF assms(3)]
    note d = app_okD[OF assms(1)]
    have iok: "inventory_ok ?stock'" by (rule inventory_ok_adjust[OF d(1)])
    have dm: "dom ?stock' = dom (inventory app)" by (rule dom_adjust)
    show ?thesis
    proof (cases "create_receipt (sales_store app) lines")
      case (Inl e)
      then have "snd (snd (checkout app lines cashes)) = app\<lparr>inventory := ?stock'\<rparr>"
        using ne rc Some ui by (simp add: checkout_def)
      moreover have "app_ok (app\<lparr>inventory := ?stock'\<rparr>)"
        using iok d(2) d(3) dm by (intro app_okI) simp_all
      ultimately show ?thesis by simp
    next
      case (Inr p)
      obtain n s' where p: "p = (n, s')" by (cases p)
      with Inr have cr: "create_receipt (sales_store app) lines = Inr (n, s')" by simp
      then have "snd (snd (checkout app lines cashes)) =
          save_inventory (app\<lparr>inventory := ?stock', sales_store := s'\<rparr>)"
        using ne rc Some ui by (simp add: checkout_def)
      moreover have "app_ok (save_inventory (app\<lparr>inventory := ?stock', sales_store := s'\<rparr>))"
      proof (rule app_okI)
        show "inventory_ok (inventory (save_inventory (app\<lparr>inventory := ?stock', sales_store := s'\<rparr>)))"
          using iok by (simp add: save_inventory_def)
        show "store_ok (sales_store (save_inventory (app\<lparr>inventory := ?stock', sales_store := s'\<rparr>)))"
          using store_ok_create[OF d(2) cr] by (simp add: save_inventory_def)
        fix m l
        assume "(m, l) \<in> set (receipt_lines (sales_store (save_inventory (app\<lparr>inventory := ?stock', sales_store := s'\<rparr>))))"
        then have "(m, l) \<in> set (receipt_lines (sales_store app)) \<or> l \<in> set lines"
          using create_receipt_Inr[OF cr] by (auto simp: save_inventory_def)
        then have "upc l \<in> dom (inventory app) \<and> 0 < qty l"
          using d(3) assms(2,3) by auto
        then show "upc l \<in> dom (inventory (save_inventory (app\<lparr>inventory := ?stock', sales_store := s'\<rparr>))) \<and> 0 < qty l"
          using dm by (simp add: save_inventory_def)
      qed
      ultimately show ?thesis by simp
    qed
  qed
qed

lemma add_item_lines:
  assumes "inventory_ok stock" and "\<forall>l \<in> set ls. upc l \<in> dom stock \<and> 0 < qty l"
  shows "\<forall>l \<in> set (add_item stock ls u q). upc l \<in> dom stock \<and> 0 < qty l"
  using assms by (auto simp: add_item_def inventory_ok_def split: option.splits)

lemma remove_item_lines: "set (remove_item ls i) \<subseteq> set ls"
  by (auto simp: remove_item_def split: option.splits dest: in_set_takeD in_set_dropD)

lemma app_ok_sale_menu:
  assumes "app_ok app" and "\<forall>l \<in> set ls. upc l \<in> dom (inventory app) \<and> 0 < qty l"
  shows "app_ok (snd (snd (sale_menu app ls actions)))"
  using assms
proof (induction app ls actions rule: sale_menu.induct)
  case (1 app ls) then show ?case by simp
next
  case (2 app ls u q rest)
  have "\<forall>l \<in> set (add_item (inventory app) ls u q). upc l \<in> dom (inventory app) \<and> 0 < qty l"
    by (rule add_item_lines[OF app_okD(1)[OF "2.prems"(1)] "2.prems"(2)])
  from "2.IH"[OF "2.prems"(1) this] show ?case by simp
next
  case (3 app ls i rest)
  have "\<forall>l \<in> set (remove_item ls i). upc l \<in> dom (inventory app) \<and> 0 < qty l"
    using "3.prems"(2) remove_item_lines[of ls i] by blast
  from "3.IH"[OF "3.prems"(1) this] show ?case by simp
next
  case (4 app ls cashes rest)
  have "app_ok (snd (snd (checkout app ls cashes)))"
    using "4.prems" by (intro app_ok_checkout) auto
  then show ?case by simp
next
  case (5 app ls rest) then show ?case by simp
next
  case (6 app ls rest) then show ?case by simp
qed

lemma app_ok_start_sale: "app_ok app \<Longrightarrow> app_ok (snd (snd (start_sale app actions)))"
  unfolding start_sale_def by (rule app_ok_sale_menu) simp_all

lemma app_ok_new:
  "inventory_ok stock \<Longrightarrow> app_ok \<lparr>inventory = stock, sales_store = init_db None, inventory_csv = stock\<rparr>"
  by (simp add: app_ok_def init_db_def store_ok_empty) (simp add: empty_db_def)

lemma app_ok_shop: "app_ok shop"
  unfolding shop_def by (rule app_ok_new) (simp add: inventory_ok_def item_X_def item_Y_def)

lemma rows_update_line_qty:
  assumes "(m, l) \<in> set (receipt_lines (update_line_qty s n u q))"
  shows "\<exists>l0. (m, l0) \<in> set (receipt_lines s) \<and> upc l = upc l0 \<and>
           (qty l = qty l0 \<or> (0 < q \<and> qty l = q))"
proof (cases "q \<le> 0")
  case True
  with assms have "(m, l) \<in> set (receipt_lines s)" by (simp add: update_line_qty_def)
  then show ?thesis by blast
next
  case False
  with assms obtain r where r: "r \<in> set (receipt_lines s)"
    and ml: "(m, l) = (if fst r = n \<and> upc (snd r) = u then (fst r, (snd r)\<lparr>qty := q\<rparr>) else r)"
    by (auto simp: update_line_qty_def)
  show ?thesis
  proof (cases "fst r = n \<and> upc (snd r) = u")
    case True
    with ml have "m = fst r" "l = (snd r)\<lparr>qty := q\<rparr>" by simp_all
    then have "(m, snd r) \<in> set (receipt_lines s) \<and> upc l = upc (snd r) \<and> 0 < q \<and> qty l = q"
      using r False by simp
    then show ?thesis by blast
  next
    case False
    with ml have "r = (m, l)" by simp
    with r show ?thesis by blast
  qed
qed

lemma app_ok_process_return:
  assumes "app_ok app"
  shows "app_ok (snd (process_return app receipt_in choice))"
proof (cases receipt_in)
  case None then show ?thesis using assms by (simp add: process_return_def)
next
  case (Some n)
  note d = app_okD[OF assms]
  show ?thesis
  proof (cases "get_receipt (sales_store app) n")
    case (Inl e)
    then show ?thesis using Some assms by (cases e) (simp_all add: process_return_def)
  next
    case (Inr p)
    obtain c lines where p: "p = (c, lines)" by (cases p)
    with Inr have gr: "get_receipt (sales_store app) n = Inr (c, lines)" by simp
    show ?thesis
    proof (cases c)
      case True
      with gr show ?thesis using Some assms by (simp add: process_return_canceled)
    next
      case False
      with gr have gr: "get_receipt (sales_store app) n = Inr (False, lines)" by simp
      show ?thesis
      proof (cases choice)
        case CancelEntireSale
        obtain e stock' where ui: "update_inventory qty (inventory app) lines = (e, stock')"
          by (cases "update_inventory qty (inventory app) lines")
        note k = update_inventory_keeps[OF ui]
        have "snd (process_return app receipt_in choice) = app\<lparr>inventory := stock'\<rparr> \<or>
              snd (process_return app receipt_in choice) =
                save_inventory (app\<lparr>inventory := stock', sales_store := set_canceled (sales_store app) n\<rparr>)"
          using Some gr CancelEntireSale ui by (cases e) (simp_all add: process_return_def)
        moreover have "app_ok (app\<lparr>inventory := stock'\<rparr>)"
          using k d by (intro app_okI) simp_all
        moreover have "app_ok (save_inventory (app\<lparr>inventory := stock', sales_store := set_canceled (sales_store app) n\<rparr>))"
        proof (rule app_okI)
          show "inventory_ok (inventory (save_inventory (app\<lparr>inventory := stock', sales_store := set_canceled (sales_store app) n\<rparr>)))"
            using k d(1) by (simp add: save_inventory_def)
          show "store_ok (sales_store (save_inventory (app\<lparr>inventory := stock', sales_store := set_canceled (sales_store app) n\<rparr>)))"
            using store_ok_set_canceled[OF d(2)] by (simp add: save_inventory_def)
          fix m l
          assume "(m, l) \<in> set (receipt_lines (sales_store (save_inventory (app\<lparr>inventory := stock', sales_store := set_canceled (sales_store app) n\<rparr>))))"
          then have "(m, l) \<in> set (receipt_lines (sales_store app))"
            by (simp add: save_inventory_def set_canceled_def split: option.splits)
          from d(3)[OF this]
          show "upc l \<in> dom (inventory (save_inventory (app\<lparr>inventory := stock', sales_store := set_canceled (sales_store app) n\<rparr>))) \<and> 0 < qty l"
            using k by (simp add: save_inventory_def)
        qed
        ultimately show ?thesis by auto
      next
        case OtherChoice
        then show ?thesis using Some gr assms by (simp add: process_return_def)
      next
        case (ReturnOneItem idx_in qty_in)
        let ?res = "snd (process_return app receipt_in choice)"
        have "?res = app \<or> (\<exists>u it rq q. inventory app u = Some it \<and> 
                ?res = save_inventory (app\<lparr>inventory := (inventory app)(u \<mapsto> update_on_hand it rq),
                          sales_store := update_line_qty (sales_store app) n u q\<rparr>))"
          using Some gr ReturnOneItem
          by (auto simp: process_return_def Let_def split: option.splits)
        moreover have "app_ok (save_inventory (app\<lparr>inventory := (inventory app)(u \<mapsto> update_on_hand it rq),
                          sales_store := update_line_qty (sales_store app) n u q\<rparr>))"
          if it: "inventory app u = Some it" for u it rq q
        proof (rule app_okI)
          let ?a = "save_inventory (app\<lparr>inventory := (inventory app)(u \<mapsto> update_on_hand it rq),
                          sales_store := update_line_qty (sales_store app) n u q\<rparr>)"
          show "inventory_ok (inventory ?a)"
            using inventory_ok_upd[OF d(1) it] by (simp add: save_inventory_def)
          show "store_ok (sales_store ?a)"
            using store_ok_update_line_qty[OF d(2)] by (simp add: save_inventory_def)
          fix m l assume "(m, l) \<in> set (receipt_lines (sales_store ?a))"
          then have "(m, l) \<in> set (receipt_lines (update_line_qty (sales_store app) n u q))"
            by (simp add: save_inventory_def)
          from rows_update_line_qty[OF this] obtain l0 where
            l0: "(m, l0) \<in> set (receipt_lines (sales_store app))" "upc l = upc l0"
              "qty l = qty l0 \<or> (0 < q \<and> qty l = q)" by blast
          from d(3)[OF l0(1)] l0(2,3) have "upc l \<in> dom (inventory app) \<and> 0 < qty l" by auto
          then show "upc l \<in> dom (inventory ?a) \<and> 0 < qty l"
            by (auto simp: save_inventory_def)
        qed
        ultimately show ?thesis using assms by auto
      qed
    qed
  qed
qed

section \<open>Full return\<close>

lemma get_receipt_set_canceled:
  "get_receipt s n = Inr (c, lines) \<Longrightarrow> get_receipt (set_canceled s n) n = Inr (True, lines)"
  by (auto simp: get_receipt_def set_canceled_def split: if_splits option.splits)

lemma app_ok_receipt_lines:
  assumes "app_ok app" and "get_receipt (sales_store app) n = Inr (c, lines)"
  shows "upc ` set lines \<subseteq> dom (inventory app)" and "\<forall>l \<in> set lines. 0 < qty l"
  using get_receipt_Inr[OF assms(2)] app_ok_lines[OF assms(1), of _ n] by auto


lemma shop_sold_store:
  "sales_store shop_sold =
     \<lparr>seq = 1, receipts = [1 \<mapsto> False], receipt_lines = [(1, line_of item_X 3)]\<rparr>"
  by (simp add: shop_sold_def start_sale_def add_item_def checkout_def calc_total_def
      shop_def item_X_def item_Y_def line_of_def init_db_def empty_db_def create_receipt_def
      fits_int64_def INT64_MAX_def Let_def save_inventory_def)

lemma shop_sold_X: "inventory shop_sold ''X'' = Some (item_X\<lparr>on_hand := 7\<rparr>)"
  by (simp add: shop_sold_def start_sale_def add_item_def checkout_def calc_total_def
      shop_def item_X_def item_Y_def line_of_def init_db_def empty_db_def create_receipt_def
      fits_int64_def INT64_MAX_def Let_def save_inventory_def update_on_hand_def)

lemma app_ok_shop_sold: "app_ok shop_sold"
  unfolding shop_sold_def by (rule app_ok_start_sale[OF app_ok_shop])

lemma shop_sold_receipt: "get_receipt (sales_store shop_sold) 1 = Inr (False, [line_of item_X 3])"
  by (simp add: shop_sold_store get_receipt_def fits_int64_def INT64_MAX_def)


section \<open>Partial return\<close>




section \<open>Lines that share an item\<close>


lemma shop_twice_store:
  "sales_store shop_twice =
     \<lparr>seq = 1, receipts = [1 \<mapsto> False],
      receipt_lines = [(1, line_of item_X 1), (1, line_of item_X 5)]\<rparr>"
  by (simp add: shop_twice_def start_sale_def add_item_def checkout_def calc_total_def
      shop_def item_X_def item_Y_def line_of_def init_db_def empty_db_def create_receipt_def
      fits_int64_def INT64_MAX_def Let_def save_inventory_def)

lemma shop_twice_X: "inventory shop_twice ''X'' = Some (item_X\<lparr>on_hand := 4\<rparr>)"
  by (simp add: shop_twice_def start_sale_def add_item_def checkout_def calc_total_def
      shop_def item_X_def item_Y_def line_of_def init_db_def empty_db_def create_receipt_def
      fits_int64_def INT64_MAX_def Let_def save_inventory_def update_on_hand_def)


lemma shop_twice_receipt:
  "get_receipt (sales_store shop_twice) 1 = Inr (False, [line_of item_X 1, line_of item_X 5])"
  by (simp add: shop_twice_store get_receipt_def fits_int64_def INT64_MAX_def)


section \<open>Sale and full return\<close>

lemma adjust_back:
  "(\<lambda>u. map_option (\<lambda>it. update_on_hand it (g u))
         (map_option (\<lambda>it. update_on_hand it (- g u)) (stock u))) = stock"
proof
  fix u
  show "map_option (\<lambda>it. update_on_hand it (g u))
         (map_option (\<lambda>it. update_on_hand it (- g u)) (stock u)) = stock u"
    by (cases "stock u") (simp_all add: update_on_hand_add update_on_hand_0)
qed

text \<open>
  Claim C8. A committed sale followed by the full return of its receipt is a round trip on
  the inventory: the sale takes the units sold off each item's \<open>on_hand\<close>, the full return
  succeeds and leaves the whole inventory as it was before the sale, and the receipt is
  then canceled. (Selling 3 units takes \<open>on_hand\<close> from 10 to 7, the return from 7 to 10.)
\<close>

theorem sale_return_all_round_trip:
  assumes "store_ok (sales_store app)"
      and "checkout app lines cashes = (msgs, Committed n change, app1)"
  shows "\<exists>app2. process_return app1 (Some n) CancelEntireSale = (FullReturnCompleted, app2) \<and>
           (\<forall>u. map_option on_hand (inventory app1 u) =
                 map_option (\<lambda>it. on_hand it - units lines u) (inventory app u)) \<and>
           inventory app2 = inventory app \<and>
           get_receipt (sales_store app1) n = Inr (False, lines) \<and>
           get_receipt (sales_store app2) n = Inr (True, lines)"
proof -
  note c = checkout_committed[OF assms(2)]
  from c(4) obtain s' where cr: "create_receipt (sales_store app) lines = Inr (n, s')"
    and inv1: "inventory app1 = (\<lambda>u. map_option (\<lambda>it. update_on_hand it (- units lines u)) (inventory app u))"
    and st1: "sales_store app1 = s'" by auto
  have gr: "get_receipt (sales_store app1) n = Inr (False, lines)"
    using get_receipt_create[OF assms(1) cr] st1 by simp
  have dm: "upc ` set lines \<subseteq> dom (inventory app1)"
    using c(2) by (simp add: inv1 dom_adjust)
  note pr = process_return_full[OF gr dm]
  let ?app2 = "\<lparr>inventory = (\<lambda>u. map_option (\<lambda>it. update_on_hand it (units lines u)) (inventory app1 u)),
       sales_store = set_canceled (sales_store app1) n,
       inventory_csv = (\<lambda>u. map_option (\<lambda>it. update_on_hand it (units lines u)) (inventory app1 u))\<rparr>"
  have 2: "\<forall>u. map_option on_hand (inventory app1 u) =
                 map_option (\<lambda>it. on_hand it - units lines u) (inventory app u)"
    by (simp add: inv1 option.map_comp comp_def on_hand_update)
  have 3: "inventory ?app2 = inventory app"
    by (simp add: inv1 adjust_back)
  have 4: "get_receipt (sales_store ?app2) n = Inr (True, lines)"
    using get_receipt_set_canceled[OF gr] by simp
  from pr 2 3 4 gr show ?thesis by blast
qed

lemma shop_X: "inventory shop ''X'' = Some item_X"
  by (simp add: shop_def)

theorem sale_return_all_round_trip_witness:
  "store_ok (sales_store shop) \<and>
   checkout shop [line_of item_X 3] [Some 9] =
     ([], Committed 1 0, snd (snd (checkout shop [line_of item_X 3] [Some 9]))) \<and>
   map_option on_hand (inventory shop ''X'') = Some 10 \<and>
   map_option on_hand (inventory (snd (snd (checkout shop [line_of item_X 3] [Some 9]))) ''X'')
     = Some 7 \<and>
   fst (process_return (snd (snd (checkout shop [line_of item_X 3] [Some 9]))) (Some 1)
          CancelEntireSale) = FullReturnCompleted \<and>
   map_option on_hand (inventory (snd (process_return
       (snd (snd (checkout shop [line_of item_X 3] [Some 9]))) (Some 1) CancelEntireSale)) ''X'')
     = Some 10 \<and>
   get_receipt (sales_store (snd (process_return
       (snd (snd (checkout shop [line_of item_X 3] [Some 9]))) (Some 1) CancelEntireSale))) 1
     = Inr (True, [line_of item_X 3])"
proof -
  let ?app1 = "snd (snd (checkout shop [line_of item_X 3] [Some 9]))"
  from sale_return_all_round_trip[OF store_ok_shop shop_sale_X3] obtain app2 where
    a: "process_return ?app1 (Some 1) CancelEntireSale = (FullReturnCompleted, app2)"
    and b: "\<forall>u. map_option on_hand (inventory ?app1 u) =
                 map_option (\<lambda>it. on_hand it - units [line_of item_X 3] u) (inventory shop u)"
    and c: "inventory app2 = inventory shop"
    and d: "get_receipt (sales_store app2) 1 = Inr (True, [line_of item_X 3])"
    by blast
  have x: "map_option on_hand (inventory shop ''X'') = Some 10"
    by (simp add: shop_X item_X_def)
  from b have y: "map_option on_hand (inventory ?app1 ''X'') = Some 7"
    by (simp add: shop_X item_X_def units_def line_of_def)
  from a c d x y store_ok_shop shop_sale_X3 show ?thesis by simp
qed

section \<open>Tender and change\<close>







section \<open>Stock levels\<close>

lemma units_nonneg: "\<forall>l \<in> set lines. 0 < qty l \<Longrightarrow> 0 \<le> units lines u"
  unfolding units_def by (rule sum_list_nonneg) auto

lemma process_return_on_hand_mono:
  assumes "app_ok app" and "inventory app u = Some it"
  shows "\<exists>it'. inventory (snd (process_return app receipt_in choice)) u = Some it' \<and>
               on_hand it \<le> on_hand it'"
proof -
  let ?res = "snd (process_return app receipt_in choice)"
  have same: ?thesis if "?res = app" using that assms(2) by simp
  show ?thesis
  proof (cases receipt_in)
    case None then show ?thesis by (intro same) (simp add: process_return_def)
  next
    case (Some n)
    show ?thesis
    proof (cases "get_receipt (sales_store app) n")
      case (Inl e)
      then show ?thesis using Some by (intro same) (cases e, simp_all add: process_return_def)
    next
      case (Inr p)
      obtain c lines where p: "p = (c, lines)" by (cases p)
      with Inr have gr: "get_receipt (sales_store app) n = Inr (c, lines)" by simp
      show ?thesis
      proof (cases c)
        case True
        with gr show ?thesis using Some by (intro same) (simp add: process_return_canceled)
      next
        case False
        with gr have gr: "get_receipt (sales_store app) n = Inr (False, lines)" by simp
        note al = app_ok_receipt_lines[OF assms(1) gr]
        show ?thesis
        proof (cases choice)
          case CancelEntireSale
          have "inventory ?res u = Some (update_on_hand it (units lines u))"
            using Some CancelEntireSale process_return_full[OF gr al(1)] assms(2) by simp
          moreover have "0 \<le> units lines u" by (rule units_nonneg[OF al(2)])
          ultimately show ?thesis by (simp add: on_hand_update)
        next
          case OtherChoice
          then show ?thesis using Some gr by (intro same) (simp add: process_return_def)
        next
          case (ReturnOneItem idx_in qty_in)
          show ?thesis
          proof (cases "\<exists>i k rq. idx_in = Some i \<and> py_index lines (i - 1) = Some k \<and> qty_in = Some rq")
            case False
            then show ?thesis using Some gr ReturnOneItem
              by (intro same) (auto simp: process_return_def split: option.splits)
          next
            case True
            then obtain i k rq where i: "idx_in = Some i" and k: "py_index lines (i - 1) = Some k"
              and rq: "qty_in = Some rq" by blast
            from py_index_Some[OF k] have "lines ! k \<in> set lines" by simp
            with al(1) obtain it0 where it0: "inventory app (upc (lines ! k)) = Some it0" by blast
            note pr = process_return_partial[OF gr k it0, of rq]
            show ?thesis
            proof (cases "rq \<le> 0 \<or> rq > qty (lines ! k)")
              case True
              then show ?thesis using Some ReturnOneItem i rq pr by (intro same) simp
            next
              case False
              then have "inventory ?res = (inventory app)(upc (lines ! k) \<mapsto> update_on_hand it0 rq)"
                using Some ReturnOneItem i rq pr by simp
              then show ?thesis using assms(2) it0 False
                by (cases "u = upc (lines ! k)") (simp_all add: on_hand_update)
            qed
          qed
        qed
      qed
    qed
  qed
qed

text \<open>
  Claim C2, as the code has it. No sale is checked against the stock: a committed sale
  leaves each item's \<open>on_hand\<close> at its value before the sale minus the units of the item
  sold, which is non-negative exactly when no more units were sold than were on hand. A
  return never lowers an \<open>on_hand\<close>: after a return request on a well-formed application
  state, whatever its outcome, every item has at least the \<open>on_hand\<close> it had, so a
  non-negative \<open>on_hand\<close> is never observed negative after a full or partial return.
\<close>

theorem on_hand_after_commit:
  "(checkout app lines cashes = (msgs, Committed n c, app') \<and> inventory app u = Some it \<longrightarrow>
      (\<exists>it'. inventory app' u = Some it' \<and> on_hand it' = on_hand it - units lines u \<and>
             (0 \<le> on_hand it' \<longleftrightarrow> units lines u \<le> on_hand it))) \<and>
   (app_ok a \<and> inventory a v = Some iv \<and> 0 \<le> on_hand iv \<and>
    process_return a receipt_in choice = (res, a') \<longrightarrow>
      (\<exists>iv'. inventory a' v = Some iv' \<and> on_hand iv \<le> on_hand iv' \<and> 0 \<le> on_hand iv'))"
proof -
  have 1: "checkout app lines cashes = (msgs, Committed n c, app') \<and> inventory app u = Some it \<longrightarrow>
      (\<exists>it'. inventory app' u = Some it' \<and> on_hand it' = on_hand it - units lines u \<and>
             (0 \<le> on_hand it' \<longleftrightarrow> units lines u \<le> on_hand it))"
  proof
    assume h: "checkout app lines cashes = (msgs, Committed n c, app') \<and> inventory app u = Some it"
    from checkout_committed(4)[OF conjunct1[OF h]] h
    have "inventory app' u = Some (update_on_hand it (- units lines u))" by auto
    then show "\<exists>it'. inventory app' u = Some it' \<and> on_hand it' = on_hand it - units lines u \<and>
             (0 \<le> on_hand it' \<longleftrightarrow> units lines u \<le> on_hand it)"
      by (simp add: on_hand_update)
  qed
  have 2: "app_ok a \<and> inventory a v = Some iv \<and> 0 \<le> on_hand iv \<and>
    process_return a receipt_in choice = (res, a') \<longrightarrow>
      (\<exists>iv'. inventory a' v = Some iv' \<and> on_hand iv \<le> on_hand iv' \<and> 0 \<le> on_hand iv')"
  proof
    assume h: "app_ok a \<and> inventory a v = Some iv \<and> 0 \<le> on_hand iv \<and>
      process_return a receipt_in choice = (res, a')"
    then have "app_ok a" "inventory a v = Some iv" by simp_all
    from process_return_on_hand_mono[OF this, of receipt_in choice] h
    show "\<exists>iv'. inventory a' v = Some iv' \<and> on_hand iv \<le> on_hand iv' \<and> 0 \<le> on_hand iv'"
      by auto
  qed
  from 1 2 show ?thesis by blast
qed


lemma shop_sold_return_all:
  "process_return shop_sold (Some 1) CancelEntireSale =
     (FullReturnCompleted, snd (process_return shop_sold (Some 1) CancelEntireSale))"
proof -
  from process_return_full[OF shop_sold_receipt
      app_ok_receipt_lines(1)[OF app_ok_shop_sold shop_sold_receipt]]
  obtain a where "process_return shop_sold (Some 1) CancelEntireSale = (FullReturnCompleted, a)"
    by blast
  then show ?thesis by simp
qed

theorem on_hand_after_commit_witness:
  "checkout shop [line_of item_X 3] [Some 9] =
     ([], Committed 1 0, snd (snd (checkout shop [line_of item_X 3] [Some 9]))) \<and>
   inventory shop ''X'' = Some item_X \<and>
   map_option on_hand (inventory (snd (snd (checkout shop [line_of item_X 3] [Some 9]))) ''X'')
     = Some 7 \<and>
   app_ok shop_sold \<and> inventory shop_sold ''X'' = Some (item_X\<lparr>on_hand := 7\<rparr>) \<and>
   0 \<le> on_hand (item_X\<lparr>on_hand := 7\<rparr>) \<and>
   process_return shop_sold (Some 1) CancelEntireSale =
     (FullReturnCompleted, snd (process_return shop_sold (Some 1) CancelEntireSale)) \<and>
   0 \<le> on_hand (the (inventory (snd (process_return shop_sold (Some 1) CancelEntireSale)) ''X''))"
proof -
  note t = on_hand_after_commit[where app = shop and lines = "[line_of item_X 3]"
      and cashes = "[Some 9]" and msgs = "[]" and n = 1 and c = 0
      and app' = "snd (snd (checkout shop [line_of item_X 3] [Some 9]))" and u = "''X''"
      and it = item_X and a = shop_sold and v = "''X''" and iv = "item_X\<lparr>on_hand := 7\<rparr>"
      and receipt_in = "Some 1" and choice = CancelEntireSale and res = FullReturnCompleted
      and a' = "snd (process_return shop_sold (Some 1) CancelEntireSale)"]
  have p: "0 \<le> on_hand (item_X\<lparr>on_hand := 7\<rparr>)" by simp
  from t shop_sale_X3 shop_X obtain it' where
    "inventory (snd (snd (checkout shop [line_of item_X 3] [Some 9]))) ''X'' = Some it'"
    "on_hand it' = on_hand item_X - units [line_of item_X 3] ''X''" by blast
  then have a: "map_option on_hand
      (inventory (snd (snd (checkout shop [line_of item_X 3] [Some 9]))) ''X'') = Some 7"
    by (simp add: units_def line_of_def item_X_def)
  from t app_ok_shop_sold shop_sold_X p shop_sold_return_all obtain iv' where
    "inventory (snd (process_return shop_sold (Some 1) CancelEntireSale)) ''X'' = Some iv'"
    "0 \<le> on_hand iv'" by blast
  then have b: "0 \<le> on_hand (the (inventory (snd (process_return shop_sold (Some 1) CancelEntireSale)) ''X''))"
    by simp
  from shop_sale_X3 shop_X a app_ok_shop_sold shop_sold_X p shop_sold_return_all b
  show ?thesis by blast
qed

text \<open>
  The sale of 12 units of item \<open>X\<close>, of which 10 are on hand, is committed and leaves
  an \<open>on_hand\<close> of -2.
\<close>

theorem oversold_counterexample:
  "fst (snd (start_sale shop [AddItem ''X'' (Some 12), Checkout [Some 36]])) = Committed 1 0 \<and>
   map_option on_hand
     (inventory (snd (snd (start_sale shop [AddItem ''X'' (Some 12), Checkout [Some 36]]))) ''X'')
     = Some (- 2)"
  by (simp add: start_sale_def add_item_def checkout_def calc_total_def
      shop_def item_X_def item_Y_def init_db_def empty_db_def create_receipt_def
      fits_int64_def INT64_MAX_def Let_def save_inventory_def update_on_hand_def)

section \<open>Returns on a receipt with a repeated item\<close>

lemma shop_twice_back1_store:
  "sales_store shop_twice_back1 =
     \<lparr>seq = 1, receipts = [1 \<mapsto> False],
      receipt_lines = [(1, line_of item_X 4), (1, line_of item_X 4)]\<rparr>"
  by (simp add: shop_twice_back1_def process_return_def shop_twice_store shop_twice_X
      get_receipt_def fits_int64_def INT64_MAX_def py_index_def line_of_def Let_def
      save_inventory_def update_line_qty_def item_X_def)

lemma shop_twice_back1_X: "inventory shop_twice_back1 ''X'' = Some (item_X\<lparr>on_hand := 5\<rparr>)"
  by (simp add: shop_twice_back1_def process_return_def shop_twice_store shop_twice_X
      get_receipt_def fits_int64_def INT64_MAX_def py_index_def line_of_def Let_def
      save_inventory_def update_line_qty_def item_X_def update_on_hand_def)

text \<open>
  Claim C3 fails on a receipt with two lines of one item. Item \<open>X\<close> has 10 units; one sale
  of a line of 1 unit and a line of 5 units leaves 4. The partial return of 1 unit from the
  second line sets both lines to 4 units. Then the receipt, not canceled, accepts the
  return of 4 units from its first line, which sold 1 unit; or it accepts the full return,
  which restores 8 more units: 9 units returned of 6 sold, and 13 units on hand.
\<close>

theorem duplicate_item_returns_exceed_sale:
  "map_option on_hand (inventory shop ''X'') = Some 10 \<and>
   get_receipt (sales_store shop_twice) 1 = Inr (False, [line_of item_X 1, line_of item_X 5]) \<and>
   map_option on_hand (inventory shop_twice ''X'') = Some 4 \<and>
   fst (process_return shop_twice (Some 1) (ReturnOneItem (Some 2) (Some 1)))
     = PartialReturnCompleted \<and>
   get_receipt (sales_store shop_twice_back1) 1
     = Inr (False, [line_of item_X 4, line_of item_X 4]) \<and>
   map_option on_hand (inventory shop_twice_back1 ''X'') = Some 5 \<and>
   fst (process_return shop_twice_back1 (Some 1) (ReturnOneItem (Some 1) (Some 4)))
     = PartialReturnCompleted \<and>
   map_option on_hand (inventory (snd (process_return shop_twice_back1 (Some 1)
       (ReturnOneItem (Some 1) (Some 4)))) ''X'') = Some 9 \<and>
   fst (process_return shop_twice_back1 (Some 1) CancelEntireSale) = FullReturnCompleted \<and>
   map_option on_hand (inventory (snd (process_return shop_twice_back1 (Some 1)
       CancelEntireSale)) ''X'') = Some 13"
proof -
  have 1: "map_option on_hand (inventory shop ''X'') = Some 10"
    by (simp add: shop_X item_X_def)
  have 3: "map_option on_hand (inventory shop_twice ''X'') = Some 4"
    by (simp add: shop_twice_X)
  have 4: "fst (process_return shop_twice (Some 1) (ReturnOneItem (Some 2) (Some 1)))
     = PartialReturnCompleted"
    by (simp add: process_return_def shop_twice_receipt shop_twice_X py_index_def line_of_def
        item_X_def Let_def)
  have 5: "get_receipt (sales_store shop_twice_back1) 1
     = Inr (False, [line_of item_X 4, line_of item_X 4])"
    by (simp add: shop_twice_back1_store get_receipt_def fits_int64_def INT64_MAX_def)
  have 6: "map_option on_hand (inventory shop_twice_back1 ''X'') = Some 5"
    by (simp add: shop_twice_back1_X)
  have 7: "fst (process_return shop_twice_back1 (Some 1) (ReturnOneItem (Some 1) (Some 4)))
     = PartialReturnCompleted"
    by (simp add: process_return_def 5 shop_twice_back1_X py_index_def line_of_def
        item_X_def Let_def)
  have 8: "map_option on_hand (inventory (snd (process_return shop_twice_back1 (Some 1)
       (ReturnOneItem (Some 1) (Some 4)))) ''X'') = Some 9"
    by (simp add: process_return_def 5 shop_twice_back1_X py_index_def line_of_def
        item_X_def Let_def save_inventory_def update_on_hand_def)
  have 9: "fst (process_return shop_twice_back1 (Some 1) CancelEntireSale) = FullReturnCompleted"
    by (simp add: process_return_def 5 shop_twice_back1_X line_of_def item_X_def
        update_on_hand_def)
  have 10: "map_option on_hand (inventory (snd (process_return shop_twice_back1 (Some 1)
       CancelEntireSale)) ''X'') = Some 13"
    by (simp add: process_return_def 5 shop_twice_back1_X line_of_def item_X_def
        update_on_hand_def save_inventory_def)
  from 1 shop_twice_receipt 3 4 5 6 7 8 9 10 show ?thesis by blast
qed

section \<open>Outcomes of a sale\<close>










end
